theory Spec2Isabelle
  imports
    Complex_Main
    "HOL-Library.Word"
    "HOL-Library.Multiset"
    "HOL-Library.Char_ord"
    "HOL-Library.List_Lexorder"
    "HOL-Library.Product_Lexorder"
begin

section \<open>Python values\<close>

text \<open>
  The collector and the query handler of \<^verbatim>\<open>app.py\<close> work on three kinds of data: the
  values \<^verbatim>\<open>response.json()\<close> returns, the values SQLite stores, and datetimes. A Python
  float is represented by the rational number it denotes, or by one of its three
  non-finite values. A Python \<^verbatim>\<open>str\<close> is the list of its (UTF-8) bytes, which is
  also what SQLite's \<^verbatim>\<open>BINARY\<close> collation compares.
\<close>

datatype pyfloat = Finite rat | PosInf | NegInf | NaN

text \<open>
  A parsed JSON document. \<open>JObj\<close> is a Python \<^verbatim>\<open>dict\<close> with string keys, given by
  its items; a key is looked up with \<open>map_of\<close>.
\<close>

datatype json =
    JNull
  | JBool bool
  | JInt int
  | JFloat pyfloat
  | JStr string
  | JArr "json list"
  | JObj "(string \<times> json) list"

text \<open>The exceptions (all subclasses of \<^verbatim>\<open>Exception\<close>) the modelled code can raise.\<close>

datatype py_error =
    ConnectionError
  | Timeout
  | HTTPError nat
  | JSONDecodeError
  | AttributeError
  | KeyError string
  | TypeError
  | OverflowError
  | ProgrammingError
  | IntegrityError
  | OperationalError

text \<open>\<^verbatim>\<open>obj.get(k)\<close>: only a dict has the method; a missing key gives \<^verbatim>\<open>None\<close>.\<close>

fun py_get :: "json \<Rightarrow> string \<Rightarrow> py_error + json" where
  "py_get (JObj kvs) k = Inr (case map_of kvs k of None \<Rightarrow> JNull | Some v \<Rightarrow> v)"
| "py_get _ k = Inl AttributeError"

text \<open>\<^verbatim>\<open>obj[k]\<close> for a string \<open>k\<close>: \<^verbatim>\<open>KeyError\<close> on a dict without the key,
  \<^verbatim>\<open>TypeError\<close> on every other kind of value.\<close>

fun py_getitem :: "json \<Rightarrow> string \<Rightarrow> py_error + json" where
  "py_getitem (JObj kvs) k = (case map_of kvs k of None \<Rightarrow> Inl (KeyError k) | Some v \<Rightarrow> Inr v)"
| "py_getitem _ k = Inl TypeError"

text \<open>\<^verbatim>\<open>x == n\<close> for an int \<open>n\<close>: Python compares numbers by value, and \<^verbatim>\<open>bool\<close> is
  a subclass of \<^verbatim>\<open>int\<close>.\<close>

fun py_eq_int :: "json \<Rightarrow> int \<Rightarrow> bool" where
  "py_eq_int (JInt i) n = (i = n)"
| "py_eq_int (JBool b) n = ((if b then 1 else 0) = n)"
| "py_eq_int (JFloat (Finite q)) n = (q = of_int n)"
| "py_eq_int _ n = False"

text \<open>\<^verbatim>\<open>for x in obj\<close>: a list gives its elements, a dict its keys, a str its
  characters; nothing else is iterable.\<close>

fun py_iter :: "json \<Rightarrow> py_error + json list" where
  "py_iter (JArr xs) = Inr xs"
| "py_iter (JObj kvs) = Inr (map (\<lambda>kv. JStr (fst kv)) kvs)"
| "py_iter (JStr s) = Inr (map (\<lambda>c. JStr [c]) s)"
| "py_iter _ = Inl TypeError"

section \<open>Decimal output\<close>

definition digit_char :: "nat \<Rightarrow> char" where
  "digit_char d = ''0123456789'' ! (d mod 10)"

text \<open>\<open>zpad w n\<close> is \<^verbatim>\<open>"%0wd" % n\<close> for \<open>n < 10 ^ w\<close>.\<close>

primrec zpad :: "nat \<Rightarrow> nat \<Rightarrow> string" where
  "zpad 0 n = []"
| "zpad (Suc w) n = zpad w (n div 10) @ [digit_char n]"

fun show_nat :: "nat \<Rightarrow> string" where
  "show_nat n = (if n < 10 then [digit_char n] else show_nat (n div 10) @ [digit_char n])"

definition show_int :: "int \<Rightarrow> string" where
  "show_int i = (if i < 0 then CHR ''-'' # show_nat (nat (- i)) else show_nat (nat i))"

section \<open>The capacity table\<close>

text \<open>
  \<^verbatim>\<open>
  CREATE TABLE IF NOT EXISTS capacity
     (timestamp TEXT NOT NULL, location_id INTEGER NOT NULL,
      location_name TEXT NOT NULL, capacity INTEGER NOT NULL,
      PRIMARY KEY (timestamp, location_id))
  \<close>
  SQLite types values, not columns: a column of \<^verbatim>\<open>INTEGER\<close> affinity can hold a real or
  a text. The two \<^verbatim>\<open>TEXT\<close> columns hold text only: the timestamp is always bound from a
  \<^verbatim>\<open>str\<close>, and \<^verbatim>\<open>TEXT\<close> affinity turns every number into text.
\<close>

datatype sqlval = SqlNull | SqlInt int | SqlReal pyfloat | SqlText string

record row =
  timestamp :: string
  location_id :: sqlval
  location_name :: string
  capacity :: sqlval

text \<open>
  How the \<^verbatim>\<open>sqlite3\<close> module binds a Python value to a \<^verbatim>\<open>?\<close>: \<^verbatim>\<open>None\<close> is
  \<^verbatim>\<open>NULL\<close>, an int (a bool too) is an \<^verbatim>\<open>INTEGER\<close> when it fits 64 bits and raises
  \<^verbatim>\<open>OverflowError\<close> otherwise, a float is a \<^verbatim>\<open>REAL\<close> (SQLite stores NaN as
  \<^verbatim>\<open>NULL\<close>), a str is a \<^verbatim>\<open>TEXT\<close>; a list or a dict is not supported.
\<close>

fun bind_param :: "json \<Rightarrow> py_error + sqlval" where
  "bind_param JNull = Inr SqlNull"
| "bind_param (JBool b) = Inr (SqlInt (if b then 1 else 0))"
| "bind_param (JInt i) =
     (if - (2 ^ 63) \<le> i \<and> i < 2 ^ 63 then Inr (SqlInt i) else Inl OverflowError)"
| "bind_param (JFloat NaN) = Inr SqlNull"
| "bind_param (JFloat f) = Inr (SqlReal f)"
| "bind_param (JStr s) = Inr (SqlText s)"
| "bind_param (JArr xs) = Inl ProgrammingError"
| "bind_param (JObj kvs) = Inl ProgrammingError"

text \<open>
  The conversions of column affinity that read or print a floating-point literal are
  taken as parameters: \<open>numeric_of_text s\<close> is the number SQLite stores in an
  \<^verbatim>\<open>INTEGER\<close> column for the text \<open>s\<close> (\<open>None\<close> when \<open>s\<close> is not a numeric literal
  and stays a text), \<open>text_of_real f\<close> is the text it stores in a \<^verbatim>\<open>TEXT\<close> column for
  the real \<open>f\<close>. Everything below holds for every such pair of functions.
\<close>

record affinity_conv =
  numeric_of_text :: "string \<Rightarrow> (int + pyfloat) option"
  text_of_real :: "pyfloat \<Rightarrow> string"

fun integer_affinity :: "affinity_conv \<Rightarrow> sqlval \<Rightarrow> sqlval" where
  "integer_affinity cv (SqlReal (Finite q)) =
     (if of_int \<lfloor>q\<rfloor> = q \<and> - (2 ^ 63) < q \<and> q < 2 ^ 63 - 1
      then SqlInt \<lfloor>q\<rfloor> else SqlReal (Finite q))"
| "integer_affinity cv (SqlText s) =
     (case numeric_of_text cv s of
        None \<Rightarrow> SqlText s
      | Some (Inl i) \<Rightarrow> SqlInt i
      | Some (Inr f) \<Rightarrow> SqlReal f)"
| "integer_affinity cv v = v"

fun text_affinity :: "affinity_conv \<Rightarrow> sqlval \<Rightarrow> sqlval" where
  "text_affinity cv (SqlInt i) = SqlText (show_int i)"
| "text_affinity cv (SqlReal f) = SqlText (text_of_real cv f)"
| "text_affinity cv v = v"

text \<open>
  SQLite's order of values, used by \<^verbatim>\<open>ORDER BY\<close> and by the uniqueness check of the
  primary key: \<^verbatim>\<open>NULL\<close> first, then the numbers by value (integers and reals together),
  then the texts byte by byte. \<open>sqlkey\<close> maps a value to a key of a linear order with
  that comparison: the class, the sign of an infinity, the number, the text.
\<close>

fun sqlkey :: "sqlval \<Rightarrow> nat \<times> int \<times> rat \<times> string" where
  "sqlkey SqlNull = (0, 0, 0, [])"
| "sqlkey (SqlInt i) = (1, 0, of_int i, [])"
| "sqlkey (SqlReal (Finite q)) = (1, 0, q, [])"
| "sqlkey (SqlReal PosInf) = (1, 1, 0, [])"
| "sqlkey (SqlReal NegInf) = (1, - 1, 0, [])"
| "sqlkey (SqlReal NaN) = (0, 0, 0, [])"
| "sqlkey (SqlText s) = (2, 0, 0, s)"

definition row_key :: "row \<Rightarrow> string \<times> nat \<times> int \<times> rat \<times> string" where
  "row_key r = (timestamp r, sqlkey (location_id r))"

section \<open>Connections and transactions\<close>

text \<open>
  The database is \<open>None\<close> before \<^verbatim>\<open>init_db\<close> has created the table, and the list of
  the table's rows, in insertion order, afterwards. A connection sees the committed
  database and its own pending changes: the \<^verbatim>\<open>sqlite3\<close> module opens a transaction
  before the first \<^verbatim>\<open>INSERT\<close>, \<^verbatim>\<open>commit\<close> makes the pending rows durable, and
  leaving \<^verbatim>\<open>with sqlite3.connect(...) as conn\<close> commits when the body returned and
  rolls back when it raised.
\<close>

type_synonym database = "row list option"

record connection =
  committed :: database
  pending :: database

definition connect :: "database \<Rightarrow> connection" where
  "connect db = \<lparr>committed = db, pending = db\<rparr>"

definition commit :: "connection \<Rightarrow> connection" where
  "commit conn = conn\<lparr>committed := pending conn\<rparr>"

definition rollback :: "connection \<Rightarrow> connection" where
  "rollback conn = conn\<lparr>pending := committed conn\<rparr>"

text \<open>
  \<^verbatim>\<open>
  conn.execute("INSERT INTO capacity (timestamp, location_id, location_name, capacity) "
               "VALUES (?, ?, ?, ?)", (timestamp, id, title, capacity))
  \<close>
  The statement is prepared (no table: \<^verbatim>\<open>OperationalError\<close>), the parameters are bound,
  the affinities applied, \<^verbatim>\<open>NOT NULL\<close> and the primary key checked
  (\<^verbatim>\<open>IntegrityError\<close>). A failed statement changes nothing.
\<close>

type_synonym params = "string \<times> json \<times> json \<times> json"

definition stored_row :: "affinity_conv \<Rightarrow> params \<Rightarrow> py_error + row" where
  "stored_row cv p =
     (case p of (ts, a, b, c) \<Rightarrow>
      case bind_param a of Inl e \<Rightarrow> Inl e | Inr va \<Rightarrow>
     (case bind_param b of Inl e \<Rightarrow> Inl e | Inr vb \<Rightarrow>
     (case bind_param c of Inl e \<Rightarrow> Inl e | Inr vc \<Rightarrow>
     (case text_affinity cv vb of
        SqlText name \<Rightarrow>
          if integer_affinity cv va = SqlNull \<or> integer_affinity cv vc = SqlNull
          then Inl IntegrityError
          else Inr \<lparr>timestamp = ts, location_id = integer_affinity cv va,
                    location_name = name, capacity = integer_affinity cv vc\<rparr>
      | _ \<Rightarrow> Inl IntegrityError))))"

definition execute_insert :: "affinity_conv \<Rightarrow> connection \<Rightarrow> params \<Rightarrow> py_error + connection" where
  "execute_insert cv conn p =
     (case pending conn of
        None \<Rightarrow> Inl OperationalError
      | Some rows \<Rightarrow>
         (case stored_row cv p of
            Inl e \<Rightarrow> Inl e
          | Inr r \<Rightarrow>
              if row_key r \<in> set (map row_key rows) then Inl IntegrityError
              else Inr (conn\<lparr>pending := Some (rows @ [r])\<rparr>)))"

text \<open>
  The loop of one transaction. Each element of the list is the parameter tuple of one
  \<^verbatim>\<open>INSERT\<close>, or the exception that building the tuple raised. The loop stops at the
  first exception and returns it with the connection as it was then.
\<close>

fun execute_all :: "affinity_conv \<Rightarrow> (py_error + params) list \<Rightarrow> connection
    \<Rightarrow> py_error option \<times> connection" where
  "execute_all cv [] conn = (None, conn)"
| "execute_all cv (Inl e # ps) conn = (Some e, conn)"
| "execute_all cv (Inr p # ps) conn =
     (case execute_insert cv conn p of
        Inl e \<Rightarrow> (Some e, conn)
      | Inr conn' \<Rightarrow> execute_all cv ps conn')"

text \<open>
  \<^verbatim>\<open>with sqlite3.connect(DB_PATH) as conn: body\<close> runs the body on a new connection;
  it commits when the body returned and rolls back when it raised. The result is the
  exception that left the block, if any, and the committed database.
\<close>

definition with_connection :: "(connection \<Rightarrow> py_error option \<times> connection) \<Rightarrow> database
    \<Rightarrow> py_error option \<times> database" where
  "with_connection body db =
     (case body (connect db) of
        (None, conn) \<Rightarrow> (None, committed (commit conn))
      | (Some e, conn) \<Rightarrow> (Some e, committed (rollback conn)))"

text \<open>The body of the block for given parameter tuples: the loop, then
  \<^verbatim>\<open>conn.commit()\<close>.\<close>

definition insert_and_commit :: "affinity_conv \<Rightarrow> (py_error + params) list \<Rightarrow> connection
    \<Rightarrow> py_error option \<times> connection" where
  "insert_and_commit cv ps conn =
     (case execute_all cv ps conn of
        (None, conn') \<Rightarrow> (None, commit conn')
      | (Some e, conn') \<Rightarrow> (Some e, conn'))"

definition append_batch :: "affinity_conv \<Rightarrow> (py_error + params) list \<Rightarrow> database
    \<Rightarrow> py_error option \<times> database" where
  "append_batch cv ps db = with_connection (insert_and_commit cv ps) db"

section \<open>Datetimes\<close>

text \<open>
  An aware datetime in UTC, as \<^verbatim>\<open>datetime.now(timezone.utc)\<close> returns it. The fields of
  a datetime object are always in range (\<open>1 \<le> year \<le> 9999\<close>, \<open>1 \<le> month \<le> 12\<close>, ...):
  its constructor checks them. The arithmetic follows the \<^verbatim>\<open>datetime\<close> module: a
  date is converted to its ordinal (day 1 is 0001-01-01) and back.
\<close>

record pydatetime =
  year :: nat
  month :: nat
  day :: nat
  hour :: nat
  minute :: nat
  second :: nat
  microsecond :: nat

definition is_leap :: "nat \<Rightarrow> bool" where
  "is_leap y = (y mod 4 = 0 \<and> (y mod 100 \<noteq> 0 \<or> y mod 400 = 0))"

definition days_before_year :: "nat \<Rightarrow> int" where
  "days_before_year y = (let p = int y - 1 in p * 365 + p div 4 - p div 100 + p div 400)"

definition DAYS_IN_MONTH :: "int list" where
  "DAYS_IN_MONTH = [- 1, 31, 28, 31, 30, 31, 30, 31, 31, 30, 31, 30, 31]"

definition DAYS_BEFORE_MONTH :: "int list" where
  "DAYS_BEFORE_MONTH = [- 1, 0, 31, 59, 90, 120, 151, 181, 212, 243, 273, 304, 334]"

definition days_before_month :: "nat \<Rightarrow> nat \<Rightarrow> int" where
  "days_before_month y m = DAYS_BEFORE_MONTH ! m + (if m > 2 \<and> is_leap y then 1 else 0)"

definition ymd2ord :: "nat \<Rightarrow> nat \<Rightarrow> nat \<Rightarrow> int" where
  "ymd2ord y m d = days_before_year y + days_before_month y m + int d"

text \<open>The inverse, for an ordinal \<open>n \<ge> 1\<close>: 146097 days are 400 years, 36524 days 100
  years, 1461 days 4 years.\<close>

definition ord2ymd :: "int \<Rightarrow> nat \<times> nat \<times> nat" where
  "ord2ymd n0 =
     (let n = n0 - 1;
          n400 = n div 146097; n = n mod 146097;
          n100 = n div 36524; n = n mod 36524;
          n4 = n div 1461; n = n mod 1461;
          n1 = n div 365; n = n mod 365;
          y = n400 * 400 + 1 + n100 * 100 + n4 * 4 + n1
      in if n1 = 4 \<or> n100 = 4 then (nat (y - 1), 12, 31)
         else
           let leapyear = (n1 = 3 \<and> (n4 \<noteq> 24 \<or> n100 = 3));
               m = nat ((n + 50) div 32);
               preceding = DAYS_BEFORE_MONTH ! m + (if m > 2 \<and> leapyear then 1 else 0)
           in if preceding > n
              then (nat y, m - 1,
                    nat (n - (preceding - (DAYS_IN_MONTH ! (m - 1)
                                 + (if m - 1 = 2 \<and> leapyear then 1 else 0))) + 1))
              else (nat y, m, nat (n - preceding + 1)))"

text \<open>
  \<^verbatim>\<open>dt - timedelta(hours=h)\<close>. A timedelta holds at most 999999999 days, and the
  result must be a date from 0001-01-01 to 9999-12-31 (ordinal 3652059); otherwise the
  operation raises \<^verbatim>\<open>OverflowError\<close>.
\<close>

definition sub_hours :: "pydatetime \<Rightarrow> int \<Rightarrow> py_error + pydatetime" where
  "sub_hours dt h =
     (let td_days = h div 24; td_seconds = (h mod 24) * 3600
      in if \<bar>td_days\<bar> > 999999999 then Inl OverflowError
         else
           let secs = int (hour dt) * 3600 + int (minute dt) * 60 + int (second dt) - td_seconds;
               days = ymd2ord (year dt) (month dt) (day dt) - td_days + secs div 86400;
               s = secs mod 86400
           in if 0 < days \<and> days \<le> 3652059
              then (case ord2ymd days of (y, m, d) \<Rightarrow>
                      Inr \<lparr>year = y, month = m, day = d,
                           hour = nat (s div 3600), minute = nat (s mod 3600 div 60),
                           second = nat (s mod 60), microsecond = microsecond dt\<rparr>)
              else Inl OverflowError)"

text \<open>\<^verbatim>\<open>dt.isoformat()\<close>: the microseconds are printed only when they are not zero.\<close>

definition isoformat :: "pydatetime \<Rightarrow> string" where
  "isoformat dt =
     zpad 4 (year dt) @ ''-'' @ zpad 2 (month dt) @ ''-'' @ zpad 2 (day dt) @ ''T''
     @ zpad 2 (hour dt) @ '':'' @ zpad 2 (minute dt) @ '':'' @ zpad 2 (second dt)
     @ (if microsecond dt \<noteq> 0 then ''.'' @ zpad 6 (microsecond dt) else [])
     @ ''+00:00''"

section \<open>The collector\<close>

text \<open>What \<^verbatim>\<open>requests.get(API_URL, timeout=10)\<close> did: it raised, or it returned a
  response with a status code and a body, which \<^verbatim>\<open>response.json()\<close> parses (\<open>None\<close>:
  the body is not JSON).\<close>

datatype http_outcome = NetworkFailure | TimedOut | Response nat "json option"

text \<open>The tuple \<^verbatim>\<open>(timestamp, location["id"], location["title"], location["capacity"])\<close>.\<close>

definition location_params :: "string \<Rightarrow> json \<Rightarrow> py_error + params" where
  "location_params ts loc =
     (case py_getitem loc ''id'' of Inl e \<Rightarrow> Inl e | Inr a \<Rightarrow>
     (case py_getitem loc ''title'' of Inl e \<Rightarrow> Inl e | Inr b \<Rightarrow>
     (case py_getitem loc ''capacity'' of Inl e \<Rightarrow> Inl e | Inr c \<Rightarrow> Inr (ts, a, b, c))))"

text \<open>The body of the \<^verbatim>\<open>with\<close> block of \<^verbatim>\<open>fetch_and_store\<close>:
  \<^verbatim>\<open>for location in data["data"]: conn.execute(...)\<close>, then \<^verbatim>\<open>conn.commit()\<close>.\<close>

definition insert_locations :: "affinity_conv \<Rightarrow> string \<Rightarrow> json \<Rightarrow> connection
    \<Rightarrow> py_error option \<times> connection" where
  "insert_locations cv ts data conn =
     (case py_getitem data ''data'' of
        Inl e \<Rightarrow> (Some e, conn)
      | Inr d \<Rightarrow>
         (case py_iter d of
            Inl e \<Rightarrow> (Some e, conn)
          | Inr locs \<Rightarrow> insert_and_commit cv (map (location_params ts) locs) conn))"

text \<open>
  \<^verbatim>\<open>fetch_and_store\<close>, for the time \<open>now\<close> of the clock and the outcome \<open>resp\<close> of the
  request. The result is the exception that the \<^verbatim>\<open>except Exception\<close> clause caught
  and printed, if any, and the database afterwards. \<^verbatim>\<open>raise_for_status\<close> raises for
  the status codes 400 to 599.
\<close>

definition fetch_and_store :: "affinity_conv \<Rightarrow> pydatetime \<Rightarrow> http_outcome \<Rightarrow> database
    \<Rightarrow> py_error option \<times> database" where
  "fetch_and_store cv now resp db =
     (case resp of
        NetworkFailure \<Rightarrow> (Some ConnectionError, db)
      | TimedOut \<Rightarrow> (Some Timeout, db)
      | Response code body \<Rightarrow>
          if 400 \<le> code \<and> code < 600 then (Some (HTTPError code), db)
          else
           (case body of
              None \<Rightarrow> (Some JSONDecodeError, db)
            | Some data \<Rightarrow>
               (case py_get data ''status'' of
                  Inl e \<Rightarrow> (Some e, db)
                | Inr st \<Rightarrow>
                    if py_eq_int st 1
                    then with_connection (insert_locations cv (isoformat now) data) db
                    else (None, db))))"

section \<open>The query handler\<close>

text \<open>\<^verbatim>\<open>SELECT ... FROM capacity [WHERE timestamp >= ?] ORDER BY timestamp, location_id\<close>\<close>

definition select_rows :: "string option \<Rightarrow> row list \<Rightarrow> row list" where
  "select_rows since rows =
     sort_key row_key
       (case since of None \<Rightarrow> rows | Some s \<Rightarrow> filter (\<lambda>r. s \<le> timestamp r) rows)"

text \<open>The parameter list of the query: empty for \<open>hours \<le> 0\<close>, the lower bound
  \<^verbatim>\<open>(datetime.now(timezone.utc) - timedelta(hours=hours)).isoformat()\<close> otherwise.\<close>

definition since_param :: "pydatetime \<Rightarrow> int \<Rightarrow> py_error + string option" where
  "since_param now hours =
     (if hours > 0
      then (case sub_hours now hours of Inl e \<Rightarrow> Inl e | Inr t \<Rightarrow> Inr (Some (isoformat t)))
      else Inr None)"

text \<open>The rows \<^verbatim>\<open>get_data\<close> reads, for the lookback \<open>hours\<close>.\<close>

definition query_rows :: "pydatetime \<Rightarrow> int \<Rightarrow> database \<Rightarrow> py_error + row list" where
  "query_rows now hours db =
     (case since_param now hours of
        Inl e \<Rightarrow> Inl e
      | Inr since \<Rightarrow>
         (case db of
            None \<Rightarrow> Inl OperationalError
          | Some rows \<Rightarrow> Inr (select_rows since rows)))"

text \<open>
  The grouping loop. The dict \<^verbatim>\<open>data\<close> is the list of its items in insertion order:
  \<^verbatim>\<open>
  for timestamp, _loc_id, loc_name, capacity in rows:
      if loc_name not in data:
          data[loc_name] = {"timestamps": [], "capacities": []}
      data[loc_name]["timestamps"].append(timestamp)
      data[loc_name]["capacities"].append(capacity)
  \<close>
\<close>

record series =
  timestamps :: "string list"
  capacities :: "sqlval list"

definition add_row :: "(string \<times> series) list \<Rightarrow> row \<Rightarrow> (string \<times> series) list" where
  "add_row data r =
     (let data1 = (if location_name r \<in> set (map fst data) then data
                   else data @ [(location_name r, \<lparr>timestamps = [], capacities = []\<rparr>)])
      in map (\<lambda>(k, s). if k = location_name r
                then (k, \<lparr>timestamps = timestamps s @ [timestamp r],
                          capacities = capacities s @ [capacity r]\<rparr>)
                else (k, s)) data1)"

definition build_series :: "row list \<Rightarrow> (string \<times> series) list" where
  "build_series rows = foldl add_row [] rows"

text \<open>
  \<^verbatim>\<open>get_data\<close>. \<open>parsed\<close> is the result of \<^verbatim>\<open>int(hours_param)\<close>, \<open>None\<close> when it
  raised \<^verbatim>\<open>ValueError\<close>; a request without the parameter parses the default \<^verbatim>\<open>"24"\<close>.
  \<open>Inl\<close> is an exception that leaves the handler, \<open>Inr\<close> the dict given to
  \<^verbatim>\<open>jsonify\<close>.
\<close>

definition get_data :: "pydatetime \<Rightarrow> int option \<Rightarrow> database
    \<Rightarrow> py_error + (string \<times> series) list" where
  "get_data now parsed db =
     (let hours = (case parsed of None \<Rightarrow> 24 | Some h \<Rightarrow> h)
      in case query_rows now hours db of
           Inl e \<Rightarrow> Inl e
         | Inr rows \<Rightarrow> Inr (build_series rows))"

section \<open>The scheduler\<close>

text \<open>
  The state of the process: the database file (the table and whether its index
  exists), the background scheduler (\<open>running\<close>, and the number of interval jobs
  it holds), the flag \<^verbatim>\<open>scheduler_started\<close>, the number of requests
  \<^verbatim>\<open>fetch_and_store\<close> has sent and the errors it has printed.
\<close>

record world =
  db_file :: database
  has_index :: bool
  running :: bool
  jobs :: nat
  scheduler_started :: bool
  requests_sent :: nat
  printed :: "py_error list"

text \<open>What the outside gives one call of \<^verbatim>\<open>fetch_and_store\<close>: the time of the clock
  and the outcome of the request.\<close>

record tick =
  clock :: pydatetime
  reply :: http_outcome

text \<open>\<^verbatim>\<open>init_db\<close>: \<^verbatim>\<open>CREATE TABLE IF NOT EXISTS\<close>, then
  \<^verbatim>\<open>CREATE INDEX IF NOT EXISTS\<close>.\<close>

definition init_db :: "world \<Rightarrow> world" where
  "init_db w = w\<lparr>db_file := Some (case db_file w of None \<Rightarrow> [] | Some rows \<Rightarrow> rows),
                 has_index := True\<rparr>"

definition run_fetch_and_store :: "affinity_conv \<Rightarrow> tick \<Rightarrow> world \<Rightarrow> world" where
  "run_fetch_and_store cv tk w =
     (case fetch_and_store cv (clock tk) (reply tk) (db_file w) of
        (err, db') \<Rightarrow>
          w\<lparr>db_file := db', requests_sent := requests_sent w + 1,
            printed := printed w @ (case err of None \<Rightarrow> [] | Some e \<Rightarrow> [e])\<rparr>)"

text \<open>
  \<^verbatim>\<open>
  def start_scheduler():
      init_db()
      fetch_and_store()
      if not scheduler.running:
          scheduler.add_job(func=fetch_and_store, trigger="interval", minutes=5)
          scheduler.start()
  \<close>
\<close>

definition start_scheduler :: "affinity_conv \<Rightarrow> tick \<Rightarrow> world \<Rightarrow> world" where
  "start_scheduler cv tk w =
     (let w1 = init_db w;
          w2 = run_fetch_and_store cv tk w1
      in if \<not> running w2 then w2\<lparr>jobs := jobs w2 + 1, running := True\<rparr> else w2)"

text \<open>
  The \<^verbatim>\<open>before_request\<close> hook, one thread at a time:
  \<^verbatim>\<open>
  def _ensure_scheduler_started():
      global scheduler_started
      if scheduler_started:
          return
      with scheduler_lock:
          if scheduler_started:
              return
          start_scheduler()
          scheduler_started = True
  \<close>
\<close>

definition ensure_scheduler_started :: "affinity_conv \<Rightarrow> tick \<Rightarrow> world \<Rightarrow> world" where
  "ensure_scheduler_started cv tk w =
     (if scheduler_started w then w
      else if scheduler_started w then w
      else (start_scheduler cv tk w)\<lparr>scheduler_started := True\<rparr>)"

text \<open>The process as the module creates it: no scheduler running, the flag unset.\<close>

definition fresh_world :: "database \<Rightarrow> world" where
  "fresh_world d =
     \<lparr>db_file = d, has_index = False, running = False, jobs = 0,
      scheduler_started = False, requests_sent = 0, printed = []\<rparr>"

section \<open>Well-typed samples\<close>

text \<open>
  A sample as the remote source is expected to send it and as the table is meant to
  hold it: 64-bit integers for the id and the capacity.
\<close>

record sample =
  s_timestamp :: string
  s_location_id :: "64 word"
  s_location_name :: string
  s_capacity :: "64 word"

definition params_of_sample :: "sample \<Rightarrow> params" where
  "params_of_sample s =
     (s_timestamp s, JInt (sint (s_location_id s)), JStr (s_location_name s),
      JInt (sint (s_capacity s)))"

definition row_of_sample :: "sample \<Rightarrow> row" where
  "row_of_sample s =
     \<lparr>timestamp = s_timestamp s, location_id = SqlInt (sint (s_location_id s)),
      location_name = s_location_name s, capacity = SqlInt (sint (s_capacity s))\<rparr>"

definition sample_key :: "sample \<Rightarrow> string \<times> int" where
  "sample_key s = (s_timestamp s, sint (s_location_id s))"

text \<open>The entry of the response's \<^verbatim>\<open>data\<close> array for an id, a title and a capacity.\<close>

definition location_entry :: "int \<Rightarrow> string \<Rightarrow> int \<Rightarrow> json" where
  "location_entry i title c =
     JObj [(''id'', JInt i), (''title'', JStr title), (''capacity'', JInt c)]"

text \<open>A response with the status code 200 and the body
  \<^verbatim>\<open>{"status": st, "data": [...]}\<close>.\<close>

definition capacity_response :: "json \<Rightarrow> json list \<Rightarrow> http_outcome" where
  "capacity_response st locs = Response 200 (Some (JObj [(''status'', st), (''data'', JArr locs)]))"

text \<open>For the examples: they bind integers to the \<^verbatim>\<open>INTEGER\<close> columns and text to the
  \<^verbatim>\<open>TEXT\<close> columns only, where SQLite converts nothing, so this table of conversions is
  never consulted.\<close>

definition no_conv :: affinity_conv where
  "no_conv = \<lparr>numeric_of_text = (\<lambda>s. None), text_of_real = (\<lambda>f. [])\<rparr>"

definition noon :: pydatetime where
  "noon = \<lparr>year = 2024, month = 1, day = 1, hour = 12, minute = 0, second = 0,
           microsecond = 0\<rparr>"

definition earlier_row :: row where
  "earlier_row = \<lparr>timestamp = ''2024-01-01T11:55:00+00:00'', location_id = SqlInt 1,
                  location_name = ''A'', capacity = SqlInt 9\<rparr>"

text \<open>
  The grouping as the specification words it, to compare \<open>build_series\<close> with: the
  names in the order in which they are first seen, each with the timestamps and the
  capacities of the rows of that name, in the order of the rows.
\<close>

definition first_seen :: "'a list \<Rightarrow> 'a list" where
  "first_seen xs = rev (remdups (rev xs))"

definition series_of :: "string \<Rightarrow> row list \<Rightarrow> series" where
  "series_of n rows =
     \<lparr>timestamps = map timestamp (filter (\<lambda>r. location_name r = n) rows),
      capacities = map capacity (filter (\<lambda>r. location_name r = n) rows)\<rparr>"

definition grouped_by_name :: "row list \<Rightarrow> (string \<times> series) list" where
  "grouped_by_name rows = map (\<lambda>n. (n, series_of n rows)) (first_seen (map location_name rows))"

definition two_runs :: "row list" where
  "two_runs =
     [\<lparr>timestamp = ''2024-01-01T11:55:00+00:00'', location_id = SqlInt 1,
       location_name = ''A'', capacity = SqlInt 9\<rparr>,
      \<lparr>timestamp = ''2024-01-01T11:55:00+00:00'', location_id = SqlInt 2,
       location_name = ''B'', capacity = SqlInt 4\<rparr>,
      \<lparr>timestamp = ''2024-01-01T12:00:00+00:00'', location_id = SqlInt 1,
       location_name = ''A'', capacity = SqlInt 10\<rparr>,
      \<lparr>timestamp = ''2024-01-01T12:00:00+00:00'', location_id = SqlInt 2,
       location_name = ''B'', capacity = SqlInt 5\<rparr>]"

definition two_samples :: "sample list" where
  "two_samples =
     [\<lparr>s_timestamp = ''2024-01-01T12:00:00+00:00'', s_location_id = 2,
       s_location_name = ''B'', s_capacity = 5\<rparr>,
      \<lparr>s_timestamp = ''2024-01-01T11:55:00+00:00'', s_location_id = 1,
       s_location_name = ''A'', s_capacity = 9\<rparr>]"

text \<open>Two rows, thirty minutes and two hours before \<open>noon\<close>.\<close>

definition half_hour_ago :: row where
  "half_hour_ago = \<lparr>timestamp = ''2024-01-01T11:30:00+00:00'', location_id = SqlInt 1,
                    location_name = ''A'', capacity = SqlInt 10\<rparr>"

definition two_hours_ago :: row where
  "two_hours_ago = \<lparr>timestamp = ''2024-01-01T10:00:00+00:00'', location_id = SqlInt 1,
                    location_name = ''A'', capacity = SqlInt 7\<rparr>"

text \<open>Two runs five minutes apart, each with one location in the response.\<close>

definition first_tick :: tick where
  "first_tick = \<lparr>clock = noon, reply = capacity_response (JInt 1) [location_entry 1 ''A'' 10]\<rparr>"

definition second_tick :: tick where
  "second_tick =
     \<lparr>clock = noon\<lparr>minute := 5\<rparr>,
      reply = capacity_response (JInt 1) [location_entry 1 ''A'' 12]\<rparr>"

text \<open>
  The order of datetimes in UTC is the lexicographic order of their fields. Every
  datetime object fits the widths \<^verbatim>\<open>isoformat\<close> prints its fields with.
\<close>

definition dt_key :: "pydatetime \<Rightarrow> nat \<times> nat \<times> nat \<times> nat \<times> nat \<times> nat \<times> nat" where
  "dt_key d = (year d, month d, day d, hour d, minute d, second d, microsecond d)"

definition fits_isoformat :: "pydatetime \<Rightarrow> bool" where
  "fits_isoformat d \<longleftrightarrow>
     year d < 10000 \<and> month d < 100 \<and> day d < 100 \<and> hour d < 100 \<and> minute d < 100
     \<and> second d < 100 \<and> microsecond d < 1000000"

section \<open>Evaluation of the model\<close>

lemma zpad_numeral: "zpad (numeral k) n = zpad (pred_numeral k) (n div 10) @ [digit_char n]"
  by (subst numeral_eq_Suc) (rule zpad.simps(2))

lemma isoformat_noon: "isoformat noon = ''2024-01-01T12:00:00+00:00''"
  by (simp add: isoformat_def noon_def digit_char_def zpad_numeral)

lemmas eval_defs = capacity_response_def location_entry_def location_params_def
  execute_insert_def stored_row_def row_key_def connect_def no_conv_def isoformat_noon

section \<open>Transactions\<close>

lemma execute_insert_committed:
  "execute_insert cv conn p = Inr conn' \<Longrightarrow> committed conn' = committed conn"
  by (auto simp: execute_insert_def split: option.splits sum.splits if_splits)

lemma execute_all_committed:
  "execute_all cv ps conn = (r, conn') \<Longrightarrow> committed conn' = committed conn"
proof (induction cv ps conn rule: execute_all.induct)
  case (3 cv p ps conn)
  then show ?case
    by (cases "execute_insert cv conn p") (auto dest: execute_insert_committed)
qed auto

lemma execute_all_append:
  "execute_all cv ps conn = (None, conn') \<Longrightarrow>
   execute_all cv (ps @ qs) conn = execute_all cv qs conn'"
proof (induction cv ps conn rule: execute_all.induct)
  case (3 cv p ps conn)
  then show ?case by (cases "execute_insert cv conn p") auto
qed auto

lemma with_connection_failed:
  "body (connect db) = (Some e, conn) \<Longrightarrow> committed conn = db \<Longrightarrow>
   with_connection body db = (Some e, db)"
  by (simp add: with_connection_def rollback_def)

text \<open>
  C1. The batch of one run is appended all or nothing. Let the response pass the status
  check and let its \<^verbatim>\<open>data\<close> list the locations \<open>pre @ loc # post\<close>. If the samples of
  \<open>pre\<close> were inserted and the insertion of the sample of \<open>loc\<close> fails (its tuple cannot
  be built, or the \<^verbatim>\<open>INSERT\<close> raises, as it does for a duplicate primary key), then
  \<^verbatim>\<open>fetch_and_store\<close> leaves the database exactly as it was: no sample of the batch is
  persisted, the samples of \<open>pre\<close> included, and the stored rows are unchanged.
\<close>

theorem batch_all_or_nothing:
  assumes pre: "execute_all cv (map (location_params (isoformat now)) pre) (connect db)
      = (None, conn)"
    and fails: "location_params (isoformat now) loc = Inl e \<or>
        (\<exists>p. location_params (isoformat now) loc = Inr p \<and> execute_insert cv conn p = Inl e)"
    and code: "\<not> (400 \<le> code \<and> code < 600)"
    and status: "py_get data ''status'' = Inr st" "py_eq_int st 1"
    and locs: "py_getitem data ''data'' = Inr d" "py_iter d = Inr (pre @ loc # post)"
  shows "fetch_and_store cv now (Response code (Some data)) db = (Some e, db)"
proof -
  let ?ts = "isoformat now"
  have one: "execute_all cv (map (location_params ?ts) (loc # post)) conn = (Some e, conn)"
    using fails by auto
  have "execute_all cv (map (location_params ?ts) (pre @ loc # post)) (connect db)
      = (Some e, conn)"
    using execute_all_append [OF pre] one by simp
  moreover have "committed conn = db"
    using execute_all_committed [OF pre] by (simp add: connect_def)
  ultimately have "with_connection (insert_locations cv ?ts data) db = (Some e, db)"
    using locs by (intro with_connection_failed [where conn = conn])
      (simp_all add: insert_locations_def insert_and_commit_def)
  then show ?thesis
    using code status by (auto simp: fetch_and_store_def)
qed

text \<open>The second location repeats the id of the first: the primary key rejects it, and
  the first sample is not stored either.\<close>

theorem batch_all_or_nothing_witness:
  "fetch_and_store no_conv noon
     (capacity_response (JInt 1)
        [location_entry 1 ''A'' 10, location_entry 1 ''B'' 5, location_entry 2 ''C'' 7])
     (Some [earlier_row])
   = (Some IntegrityError, Some [earlier_row])"
  using batch_all_or_nothing [of no_conv noon "[location_entry 1 ''A'' 10]" "Some [earlier_row]"
      "\<lparr>committed = Some [earlier_row], pending = Some [earlier_row,
         \<lparr>timestamp = ''2024-01-01T12:00:00+00:00'', location_id = SqlInt 1,
           location_name = ''A'', capacity = SqlInt 10\<rparr>]\<rparr>"
      "location_entry 1 ''B'' 5" IntegrityError 200
      "JObj [(''status'', JInt 1), (''data'', JArr [location_entry 1 ''A'' 10,
         location_entry 1 ''B'' 5, location_entry 2 ''C'' 7])]"
      "JInt 1"
      "JArr [location_entry 1 ''A'' 10, location_entry 1 ''B'' 5, location_entry 2 ''C'' 7]"
      "[location_entry 2 ''C'' 7]"]
  by (simp add: eval_defs earlier_row_def)

section \<open>The collector: failures and the status check\<close>

lemma py_eq_int_one:
  "py_eq_int st 1 \<longleftrightarrow> st = JInt 1 \<or> st = JBool True \<or> st = JFloat (Finite 1)"
proof (cases st)
  case (JFloat f)
  then show ?thesis by (cases f) auto
qed auto

text \<open>
  C5 (as amended). When the request raises a network error or times out, when the
  response has a status code from 400 to 599, or when its body is not JSON,
  \<^verbatim>\<open>fetch_and_store\<close> catches the exception, leaves the database unchanged and returns.
\<close>

theorem fetch_failure_isolation:
  assumes "resp = NetworkFailure \<or> resp = TimedOut
     \<or> (\<exists>code body. resp = Response code body \<and> 400 \<le> code \<and> code < 600)
     \<or> (\<exists>code. resp = Response code None)"
  shows "\<exists>e. fetch_and_store cv now resp db = (Some e, db)"
  using assms by (auto simp: fetch_and_store_def)

text \<open>A timeout leaves the stored row alone.\<close>

theorem fetch_failure_isolation_witness:
  "\<exists>e. fetch_and_store no_conv noon TimedOut (Some [earlier_row]) = (Some e, Some [earlier_row])"
  using fetch_failure_isolation [of TimedOut no_conv noon "Some [earlier_row]"] by simp

text \<open>
  C5 as stated speaks of every status outside 200 to 299. \<^verbatim>\<open>raise_for_status\<close> raises
  for 400 to 599 only: a response with the status 300 and a well-formed body is
  processed, and its sample is stored.
\<close>

theorem redirect_status_counterexample:
  "\<not> (200 \<le> (300::nat) \<and> (300::nat) < 300) \<and>
   fetch_and_store no_conv noon
     (Response 300 (Some (JObj [(''status'', JInt 1), (''data'', JArr [location_entry 1 ''A'' 10])])))
     (Some [])
   = (None, Some [\<lparr>timestamp = ''2024-01-01T12:00:00+00:00'', location_id = SqlInt 1,
                     location_name = ''A'', capacity = SqlInt 10\<rparr>])"
  by (simp add: fetch_and_store_def with_connection_def insert_locations_def
      insert_and_commit_def commit_def eval_defs)

text \<open>
  C6 (as amended). For a response that \<^verbatim>\<open>raise_for_status\<close> accepts and whose body is
  a JSON object: when the \<^verbatim>\<open>status\<close> field is absent or is none of the integer 1, the
  boolean \<^verbatim>\<open>true\<close> and the float 1.0 (the values Python's \<^verbatim>\<open>== 1\<close> accepts), the run
  stores nothing and prints no error; otherwise it goes on to the insertion block.
\<close>

theorem status_gate:
  assumes "\<not> (400 \<le> code \<and> code < 600)"
  shows "(map_of kvs ''status'' \<notin> {Some (JInt 1), Some (JBool True), Some (JFloat (Finite 1))}
          \<longrightarrow> fetch_and_store cv now (Response code (Some (JObj kvs))) db = (None, db))
       \<and> (map_of kvs ''status'' \<in> {Some (JInt 1), Some (JBool True), Some (JFloat (Finite 1))}
          \<longrightarrow> fetch_and_store cv now (Response code (Some (JObj kvs))) db
              = with_connection (insert_locations cv (isoformat now) (JObj kvs)) db)"
  using assms by (auto simp: fetch_and_store_def py_eq_int_one split: option.splits)

text \<open>The status 0 is skipped.\<close>

theorem status_gate_witness:
  "fetch_and_store no_conv noon
     (Response 200 (Some (JObj [(''status'', JInt 0), (''data'', JArr [location_entry 1 ''A'' 10])])))
     (Some [earlier_row])
   = (None, Some [earlier_row])"
  using status_gate [of 200 "[(''status'', JInt 0), (''data'', JArr [location_entry 1 ''A'' 10])]"
      no_conv noon "Some [earlier_row]"]
  by simp

text \<open>
  C6 as stated skips every status other than the integer 1. The boolean \<^verbatim>\<open>true\<close> is
  not the integer 1, and \<^verbatim>\<open>True == 1\<close> holds in Python: the sample is stored.
\<close>

theorem status_true_counterexample:
  "JBool True \<noteq> JInt 1 \<and>
   fetch_and_store no_conv noon (capacity_response (JBool True) [location_entry 1 ''A'' 10]) (Some [])
   = (None, Some [\<lparr>timestamp = ''2024-01-01T12:00:00+00:00'', location_id = SqlInt 1,
                     location_name = ''A'', capacity = SqlInt 10\<rparr>])"
  by (simp add: fetch_and_store_def with_connection_def insert_locations_def
      insert_and_commit_def commit_def eval_defs)

section \<open>The collector: the rows of one run\<close>

lemma location_params_Inr:
  "location_params ts loc = Inr p \<Longrightarrow>
   \<exists>a b c. p = (ts, a, b, c) \<and> py_getitem loc ''id'' = Inr a
     \<and> py_getitem loc ''title'' = Inr b \<and> py_getitem loc ''capacity'' = Inr c"
  by (auto simp: location_params_def split: sum.splits)

lemma stored_row_fields:
  "stored_row cv (ts, a, b, c) = Inr r \<Longrightarrow>
   timestamp r = ts \<and>
   (\<exists>va vb vc. bind_param a = Inr va \<and> bind_param b = Inr vb \<and> bind_param c = Inr vc
      \<and> location_id r = integer_affinity cv va
      \<and> SqlText (location_name r) = text_affinity cv vb
      \<and> capacity r = integer_affinity cv vc)"
  by (auto simp: stored_row_def split: sum.splits sqlval.splits if_splits)

lemma execute_insert_row:
  "execute_insert cv conn p = Inr conn' \<Longrightarrow> pending conn = Some rs \<Longrightarrow>
   \<exists>r. pending conn' = Some (rs @ [r]) \<and> stored_row cv p = Inr r"
  by (auto simp: execute_insert_def split: sum.splits if_splits)

lemma execute_all_rows:
  "execute_all cv ps conn = (None, conn') \<Longrightarrow> pending conn = Some rs \<Longrightarrow>
   \<exists>rows. pending conn' = Some (rs @ rows) \<and> length rows = length ps
     \<and> (\<forall>i<length ps. \<exists>p. ps ! i = Inr p \<and> stored_row cv p = Inr (rows ! i))"
proof (induction cv ps conn arbitrary: rs rule: execute_all.induct)
  case (1 cv conn)
  then show ?case by simp
next
  case (2 cv e ps conn)
  then show ?case by simp
next
  case (3 cv p ps conn)
  from "3.prems" obtain c1 where ins: "execute_insert cv conn p = Inr c1"
    and rest: "execute_all cv ps c1 = (None, conn')"
    by (auto split: sum.splits)
  from execute_insert_row [OF ins "3.prems"(2)] obtain r
    where r: "pending c1 = Some (rs @ [r])" "stored_row cv p = Inr r" by blast
  from "3.IH" [OF ins rest r(1)] obtain rows
    where rows: "pending conn' = Some ((rs @ [r]) @ rows)" "length rows = length ps"
      "\<forall>i<length ps. \<exists>q. ps ! i = Inr q \<and> stored_row cv q = Inr (rows ! i)"
    by blast
  have "\<exists>q. (Inr p # ps) ! i = Inr q \<and> stored_row cv q = Inr ((r # rows) ! i)"
    if "i < length (Inr p # ps)" for i
    using that r(2) rows(3) by (cases i) simp_all
  with rows(1,2) show ?case
    by (intro exI [of _ "r # rows"]) simp
qed

lemma with_connection_Some:
  "with_connection body (Some old) = (None, Some new) \<Longrightarrow>
   \<exists>conn. body (connect (Some old)) = (None, conn) \<and> pending conn = Some new"
  by (auto simp: with_connection_def commit_def split: prod.splits option.splits)

text \<open>
  C7. A run that passed the status check and returned without an error has appended one
  row for each entry of the response's \<^verbatim>\<open>data\<close>, in order. Every row carries the one
  timestamp of the run, the clock being read once, and its id, name and capacity are
  the entry's \<^verbatim>\<open>id\<close>, \<^verbatim>\<open>title\<close> and \<^verbatim>\<open>capacity\<close> as SQLite stores them in an
  \<^verbatim>\<open>INTEGER\<close>, a \<^verbatim>\<open>TEXT\<close> and an \<^verbatim>\<open>INTEGER\<close> column.
\<close>

theorem single_timestamp_per_tick:
  assumes run: "fetch_and_store cv now (Response code (Some data)) (Some old) = (None, Some new)"
    and status: "py_get data ''status'' = Inr st" "py_eq_int st 1"
    and locs: "py_getitem data ''data'' = Inr d" "py_iter d = Inr locs"
  shows "\<exists>rows. new = old @ rows \<and> length rows = length locs \<and>
     (\<forall>i<length locs.
        timestamp (rows ! i) = isoformat now \<and>
        (\<exists>a b c va vb vc.
           py_getitem (locs ! i) ''id'' = Inr a \<and> bind_param a = Inr va
         \<and> py_getitem (locs ! i) ''title'' = Inr b \<and> bind_param b = Inr vb
         \<and> py_getitem (locs ! i) ''capacity'' = Inr c \<and> bind_param c = Inr vc
         \<and> location_id (rows ! i) = integer_affinity cv va
         \<and> SqlText (location_name (rows ! i)) = text_affinity cv vb
         \<and> capacity (rows ! i) = integer_affinity cv vc))"
proof -
  let ?ts = "isoformat now"
  let ?ps = "map (location_params ?ts) locs"
  from run status have "with_connection (insert_locations cv ?ts data) (Some old) = (None, Some new)"
    by (auto simp: fetch_and_store_def split: if_splits)
  from with_connection_Some [OF this] obtain conn
    where body: "insert_locations cv ?ts data (connect (Some old)) = (None, conn)"
      and pend: "pending conn = Some new"
    by blast
  from body locs obtain c1 where loop: "execute_all cv ?ps (connect (Some old)) = (None, c1)"
    and c1: "conn = commit c1"
    by (auto simp: insert_locations_def insert_and_commit_def split: prod.splits option.splits)
  from execute_all_rows [OF loop, of old] obtain rows
    where rows: "pending c1 = Some (old @ rows)" "length rows = length ?ps"
      "\<forall>i<length ?ps. \<exists>p. ?ps ! i = Inr p \<and> stored_row cv p = Inr (rows ! i)"
    by (auto simp: connect_def)
  have new: "new = old @ rows"
    using pend c1 rows(1) by (simp add: commit_def)
  have "timestamp (rows ! i) = ?ts \<and>
        (\<exists>a b c va vb vc.
           py_getitem (locs ! i) ''id'' = Inr a \<and> bind_param a = Inr va
         \<and> py_getitem (locs ! i) ''title'' = Inr b \<and> bind_param b = Inr vb
         \<and> py_getitem (locs ! i) ''capacity'' = Inr c \<and> bind_param c = Inr vc
         \<and> location_id (rows ! i) = integer_affinity cv va
         \<and> SqlText (location_name (rows ! i)) = text_affinity cv vb
         \<and> capacity (rows ! i) = integer_affinity cv vc)" if i: "i < length locs" for i
  proof -
    from rows(3) i obtain p where p: "location_params ?ts (locs ! i) = Inr p"
      "stored_row cv p = Inr (rows ! i)" by auto
    from location_params_Inr [OF p(1)] obtain a b c where abc: "p = (?ts, a, b, c)"
      "py_getitem (locs ! i) ''id'' = Inr a" "py_getitem (locs ! i) ''title'' = Inr b"
      "py_getitem (locs ! i) ''capacity'' = Inr c" by blast
    from stored_row_fields [OF p(2) [unfolded abc(1)]] abc(2-4) show ?thesis by blast
  qed
  with new rows(2) show ?thesis by auto
qed

text \<open>Two locations, one timestamp.\<close>

theorem single_timestamp_per_tick_witness:
  "\<exists>rows. [\<lparr>timestamp = ''2024-01-01T12:00:00+00:00'', location_id = SqlInt 1,
              location_name = ''A'', capacity = SqlInt 10\<rparr>,
            \<lparr>timestamp = ''2024-01-01T12:00:00+00:00'', location_id = SqlInt 2,
              location_name = ''B'', capacity = SqlInt 5\<rparr>] = [] @ rows
     \<and> length rows = length [location_entry 1 ''A'' 10, location_entry 2 ''B'' 5] \<and>
     (\<forall>i<length [location_entry 1 ''A'' 10, location_entry 2 ''B'' 5].
        timestamp (rows ! i) = isoformat noon \<and>
        (\<exists>a b c va vb vc.
           py_getitem ([location_entry 1 ''A'' 10, location_entry 2 ''B'' 5] ! i) ''id'' = Inr a
         \<and> bind_param a = Inr va
         \<and> py_getitem ([location_entry 1 ''A'' 10, location_entry 2 ''B'' 5] ! i) ''title'' = Inr b
         \<and> bind_param b = Inr vb
         \<and> py_getitem ([location_entry 1 ''A'' 10, location_entry 2 ''B'' 5] ! i) ''capacity'' = Inr c
         \<and> bind_param c = Inr vc
         \<and> location_id (rows ! i) = integer_affinity no_conv va
         \<and> SqlText (location_name (rows ! i)) = text_affinity no_conv vb
         \<and> capacity (rows ! i) = integer_affinity no_conv vc))"
proof -
  have run: "fetch_and_store no_conv noon
       (capacity_response (JInt 1) [location_entry 1 ''A'' 10, location_entry 2 ''B'' 5]) (Some [])
     = (None, Some [\<lparr>timestamp = ''2024-01-01T12:00:00+00:00'', location_id = SqlInt 1,
                       location_name = ''A'', capacity = SqlInt 10\<rparr>,
                     \<lparr>timestamp = ''2024-01-01T12:00:00+00:00'', location_id = SqlInt 2,
                       location_name = ''B'', capacity = SqlInt 5\<rparr>])"
    by (simp add: fetch_and_store_def with_connection_def insert_locations_def
        insert_and_commit_def commit_def eval_defs)
  show ?thesis
    by (rule single_timestamp_per_tick [OF run [unfolded capacity_response_def], of "JInt 1"
          "JArr [location_entry 1 ''A'' 10, location_entry 2 ''B'' 5]"]) simp_all
qed

section \<open>The grouping of the query handler\<close>

lemma first_seen_snoc:
  "first_seen (xs @ [x]) = (if x \<in> set xs then first_seen xs else first_seen xs @ [x])"
  by (simp add: first_seen_def)

lemma set_first_seen: "set (first_seen xs) = set xs"
  by (simp add: first_seen_def)

lemma distinct_first_seen: "distinct (first_seen xs)"
  by (simp add: first_seen_def)

lemma series_of_snoc:
  "series_of n (rows @ [r]) =
   (if location_name r = n
    then \<lparr>timestamps = timestamps (series_of n rows) @ [timestamp r],
          capacities = capacities (series_of n rows) @ [capacity r]\<rparr>
    else series_of n rows)"
  by (simp add: series_of_def)

lemma series_of_unseen:
  "n \<notin> set (map location_name rows) \<Longrightarrow> series_of n rows = \<lparr>timestamps = [], capacities = []\<rparr>"
  by (auto simp: series_of_def filter_empty_conv)

lemma add_row_grouped: "add_row (grouped_by_name rows) r = grouped_by_name (rows @ [r])"
proof -
  let ?names = "map location_name rows"
  let ?n = "location_name r"
  have keys: "set (map fst (grouped_by_name rows)) = set ?names"
    by (simp add: grouped_by_name_def set_first_seen comp_def)
  have data1: "(if ?n \<in> set (map fst (grouped_by_name rows)) then grouped_by_name rows
       else grouped_by_name rows @ [(?n, \<lparr>timestamps = [], capacities = []\<rparr>)])
     = map (\<lambda>n. (n, series_of n rows)) (first_seen (?names @ [?n]))"
    unfolding keys
    by (simp add: grouped_by_name_def first_seen_snoc series_of_unseen del: set_map)
  show ?thesis
    unfolding add_row_def data1 Let_def
    by (simp add: grouped_by_name_def series_of_snoc cong: if_cong) 
qed

lemma foldl_add_row:
  "foldl add_row (grouped_by_name rows) rs = grouped_by_name (rows @ rs)"
  by (induction rs arbitrary: rows) (simp_all add: add_row_grouped)

lemma build_series_grouped: "build_series rows = grouped_by_name rows"
  using foldl_add_row [of "[]" rows] by (simp add: build_series_def grouped_by_name_def first_seen_def)

lemma zip_map_same: "zip (map f xs) (map g xs) = map (\<lambda>x. (f x, g x)) xs"
  by (induction xs) simp_all

text \<open>
  C3. \<^verbatim>\<open>get_data\<close> groups any sequence of rows by \<^verbatim>\<open>location_name\<close>: the names come
  in the order in which they are first seen, and each name has two lists of equal
  length whose \<open>i\<close>-th timestamp and \<open>i\<close>-th capacity are those of the \<open>i\<close>-th row of that
  name. For the rows \<open>(t1, A, 10)\<close>, \<open>(t1, B, 5)\<close>, \<open>(t2, A, 12)\<close> the result is
  \<open>A: [t1, t2], [10, 12]\<close> and \<open>B: [t1], [5]\<close>.
\<close>

theorem grouping_correctness:
  "map fst (build_series rows) = first_seen (map location_name rows)
   \<and> (\<forall>(n, s) \<in> set (build_series rows).
        length (timestamps s) = length (capacities s)
      \<and> zip (timestamps s) (capacities s)
          = map (\<lambda>r. (timestamp r, capacity r)) (filter (\<lambda>r. location_name r = n) rows))
   \<and> build_series
        [\<lparr>timestamp = t1, location_id = ia, location_name = ''A'', capacity = SqlInt 10\<rparr>,
         \<lparr>timestamp = t1, location_id = ib, location_name = ''B'', capacity = SqlInt 5\<rparr>,
         \<lparr>timestamp = t2, location_id = ia, location_name = ''A'', capacity = SqlInt 12\<rparr>]
      = [(''A'', \<lparr>timestamps = [t1, t2], capacities = [SqlInt 10, SqlInt 12]\<rparr>),
         (''B'', \<lparr>timestamps = [t1], capacities = [SqlInt 5]\<rparr>)]"
proof (intro conjI)
  show "map fst (build_series rows) = first_seen (map location_name rows)"
    by (simp add: build_series_grouped grouped_by_name_def comp_def)
  show "\<forall>(n, s) \<in> set (build_series rows).
        length (timestamps s) = length (capacities s)
      \<and> zip (timestamps s) (capacities s)
          = map (\<lambda>r. (timestamp r, capacity r)) (filter (\<lambda>r. location_name r = n) rows)"
    by (auto simp: build_series_grouped grouped_by_name_def series_of_def zip_map_same)
  show "build_series
        [\<lparr>timestamp = t1, location_id = ia, location_name = ''A'', capacity = SqlInt 10\<rparr>,
         \<lparr>timestamp = t1, location_id = ib, location_name = ''B'', capacity = SqlInt 5\<rparr>,
         \<lparr>timestamp = t2, location_id = ia, location_name = ''A'', capacity = SqlInt 12\<rparr>]
      = [(''A'', \<lparr>timestamps = [t1, t2], capacities = [SqlInt 10, SqlInt 12]\<rparr>),
         (''B'', \<lparr>timestamps = [t1], capacities = [SqlInt 5]\<rparr>)]"
    by (simp add: build_series_def add_row_def)
qed

text \<open>The rows of two runs, two locations each.\<close>

theorem grouping_correctness_witness:
  "map fst (build_series two_runs) = [''A'', ''B'']
   \<and> (\<exists>s. (''A'', s) \<in> set (build_series two_runs)
        \<and> length (timestamps s) = length (capacities s)
        \<and> zip (timestamps s) (capacities s)
            = [(''2024-01-01T11:55:00+00:00'', SqlInt 9),
               (''2024-01-01T12:00:00+00:00'', SqlInt 10)])"
proof -
  have A: "(''A'', \<lparr>timestamps = [''2024-01-01T11:55:00+00:00'', ''2024-01-01T12:00:00+00:00''],
                    capacities = [SqlInt 9, SqlInt 10]\<rparr>) \<in> set (build_series two_runs)"
    by (simp add: two_runs_def build_series_def add_row_def)
  from grouping_correctness [of two_runs] have
    keys: "map fst (build_series two_runs) = first_seen (map location_name two_runs)"
    and aligned: "\<forall>(n, s) \<in> set (build_series two_runs).
        length (timestamps s) = length (capacities s)
      \<and> zip (timestamps s) (capacities s)
          = map (\<lambda>r. (timestamp r, capacity r)) (filter (\<lambda>r. location_name r = n) two_runs)"
    by blast+
  from keys have "map fst (build_series two_runs) = [''A'', ''B'']"
    by (simp add: two_runs_def first_seen_def)
  moreover from bspec [OF aligned A] have
    "\<exists>s. (''A'', s) \<in> set (build_series two_runs)
        \<and> length (timestamps s) = length (capacities s)
        \<and> zip (timestamps s) (capacities s)
            = [(''2024-01-01T11:55:00+00:00'', SqlInt 9),
               (''2024-01-01T12:00:00+00:00'', SqlInt 10)]"
    using A by (intro exI [of _ "\<lparr>timestamps = [''2024-01-01T11:55:00+00:00'',
        ''2024-01-01T12:00:00+00:00''], capacities = [SqlInt 9, SqlInt 10]\<rparr>"]) simp
  ultimately show ?thesis by blast
qed

text \<open>
  C10. The grouping looks at the name only. There is one series for each name, it holds
  the timestamps and capacities of all the rows of that name in the order of the rows,
  whatever their \<^verbatim>\<open>location_id\<close>, and changing the ids of the rows changes nothing:
  two locations that carry one name are merged into one series.
\<close>

theorem grouping_by_name_only:
  "distinct (map fst (build_series rows))
   \<and> map_of (build_series rows) n =
       (if n \<in> set (map location_name rows)
        then Some \<lparr>timestamps = map timestamp (filter (\<lambda>r. location_name r = n) rows),
                   capacities = map capacity (filter (\<lambda>r. location_name r = n) rows)\<rparr>
        else None)
   \<and> build_series (map (\<lambda>r. r\<lparr>location_id := f r\<rparr>) rows) = build_series rows"
proof (intro conjI)
  show "distinct (map fst (build_series rows))"
    by (simp add: build_series_grouped grouped_by_name_def comp_def distinct_first_seen)
  show "map_of (build_series rows) n =
       (if n \<in> set (map location_name rows)
        then Some \<lparr>timestamps = map timestamp (filter (\<lambda>r. location_name r = n) rows),
                   capacities = map capacity (filter (\<lambda>r. location_name r = n) rows)\<rparr>
        else None)"
    by (simp add: build_series_grouped grouped_by_name_def map_of_map_restrict
        set_first_seen restrict_map_def series_of_def del: set_map)
  have "series_of m (map (\<lambda>r. r\<lparr>location_id := f r\<rparr>) rows) = series_of m rows" for m
    by (simp add: series_of_def filter_map comp_def)
  then show "build_series (map (\<lambda>r. r\<lparr>location_id := f r\<rparr>) rows) = build_series rows"
    by (simp add: build_series_grouped grouped_by_name_def comp_def)
qed

text \<open>Two locations, 1 and 2, both named \<open>A\<close>: one series, in the order of the rows.\<close>

theorem grouping_by_name_only_witness:
  "map_of (build_series
      [\<lparr>timestamp = ''t1'', location_id = SqlInt 1, location_name = ''A'', capacity = SqlInt 10\<rparr>,
       \<lparr>timestamp = ''t1'', location_id = SqlInt 2, location_name = ''A'', capacity = SqlInt 5\<rparr>,
       \<lparr>timestamp = ''t2'', location_id = SqlInt 1, location_name = ''A'', capacity = SqlInt 12\<rparr>])
     ''A''
   = Some \<lparr>timestamps = [''t1'', ''t1'', ''t2''], capacities = [SqlInt 10, SqlInt 5, SqlInt 12]\<rparr>"
  using grouping_by_name_only [of
      "[\<lparr>timestamp = ''t1'', location_id = SqlInt 1, location_name = ''A'', capacity = SqlInt 10\<rparr>,
       \<lparr>timestamp = ''t1'', location_id = SqlInt 2, location_name = ''A'', capacity = SqlInt 5\<rparr>,
       \<lparr>timestamp = ''t2'', location_id = SqlInt 1, location_name = ''A'', capacity = SqlInt 12\<rparr>]"
      "''A''"]
  by simp

section \<open>Appending and reading back\<close>

lemma sqlkey_int_le: "sqlkey (SqlInt i) \<le> sqlkey (SqlInt j) \<longleftrightarrow> i \<le> j"
  by (auto simp: less_eq_prod_def less_prod_def)

lemma sqlkey_int_eq: "sqlkey (SqlInt i) = sqlkey (SqlInt j) \<longleftrightarrow> i = j"
  by simp

lemma row_key_sample_le:
  "row_key (row_of_sample s) \<le> row_key (row_of_sample t) \<longleftrightarrow> sample_key s \<le> sample_key t"
  by (auto simp: row_key_def row_of_sample_def sample_key_def less_eq_prod_def [of "(a, b)" for a b]
      less_prod_def [of "(a, b)" for a b] sqlkey_int_le sqlkey_int_eq order_less_le
      simp del: sqlkey.simps)

lemma stored_row_sample: "stored_row cv (params_of_sample s) = Inr (row_of_sample s)"
proof -
  have "- (2 ^ 63) \<le> sint w \<and> sint w < 2 ^ 63" for w :: "64 word"
    using sint_ge [of w] sint_lt [of w] by simp
  then show ?thesis
    by (simp add: stored_row_def params_of_sample_def row_of_sample_def)
qed

lemma row_key_sample:
  "row_key (row_of_sample s) = row_key (row_of_sample t) \<longleftrightarrow> sample_key s = sample_key t"
  by (simp add: row_key_def row_of_sample_def sample_key_def sqlkey_int_eq del: sqlkey.simps)

lemma execute_all_samples:
  "distinct (map sample_key batch) \<Longrightarrow> pending conn = Some (map row_of_sample old) \<Longrightarrow>
   set (map sample_key batch) \<inter> set (map sample_key old) = {} \<Longrightarrow>
   \<exists>conn'. execute_all cv (map (\<lambda>s. Inr (params_of_sample s)) batch) conn = (None, conn')
      \<and> pending conn' = Some (map row_of_sample (old @ batch))
      \<and> committed conn' = committed conn"
proof (induction batch arbitrary: conn old)
  case Nil
  then show ?case by simp
next
  case (Cons s batch)
  let ?c1 = "conn\<lparr>pending := Some (map row_of_sample old @ [row_of_sample s])\<rparr>"
  have fresh: "row_key (row_of_sample s) \<notin> set (map row_key (map row_of_sample old))"
    using Cons.prems(3) by (auto simp: row_key_sample)
  then have ins: "execute_insert cv conn (params_of_sample s) = Inr ?c1"
    using Cons.prems(2) by (simp add: execute_insert_def stored_row_sample)
  have "\<exists>conn'. execute_all cv (map (\<lambda>s. Inr (params_of_sample s)) batch) ?c1 = (None, conn')
      \<and> pending conn' = Some (map row_of_sample ((old @ [s]) @ batch))
      \<and> committed conn' = committed ?c1"
    using Cons.prems by (intro Cons.IH) auto
  then show ?case using ins by auto
qed

lemma insort_samples:
  "insort_key row_key (row_of_sample s) (map row_of_sample xs)
   = map row_of_sample (insort_key sample_key s xs)"
  by (induction xs) (simp_all add: row_key_sample_le)

lemma sort_samples:
  "sort_key row_key (map row_of_sample xs) = map row_of_sample (sort_key sample_key xs)"
  by (induction xs) (simp_all add: insort_samples)

text \<open>The transaction of a run is \<open>append_batch\<close> on the tuples of its locations.\<close>

lemma fetch_and_store_append_batch:
  assumes "\<not> (400 \<le> code \<and> code < 600)" "py_get data ''status'' = Inr st" "py_eq_int st 1"
    and "py_getitem data ''data'' = Inr d" "py_iter d = Inr locs"
  shows "fetch_and_store cv now (Response code (Some data)) db
       = append_batch cv (map (location_params (isoformat now)) locs) db"
  using assms
  by (auto simp: fetch_and_store_def append_batch_def with_connection_def insert_locations_def)

text \<open>
  C2. Appending, in one transaction, a batch of samples with pairwise distinct keys
  \<open>(timestamp, location_id)\<close> to the empty table succeeds, and a query without a lower
  bound, or with a bound not after any of their timestamps, returns exactly the rows of
  that batch, in ascending order of \<open>(timestamp, location_id)\<close>.
\<close>

theorem round_trip:
  assumes keys: "distinct (map sample_key batch)"
    and since: "since = None \<or> (\<exists>t. since = Some t \<and> (\<forall>s \<in> set batch. t \<le> s_timestamp s))"
  shows "\<exists>rows.
       append_batch cv (map (\<lambda>s. Inr (params_of_sample s)) batch) (Some []) = (None, Some rows)
     \<and> select_rows since rows = map row_of_sample (sort_key sample_key batch)
     \<and> mset (select_rows since rows) = mset (map row_of_sample batch)
     \<and> sorted (map row_key (select_rows since rows))"
proof -
  from execute_all_samples [OF keys, of "connect (Some [])" "[]" cv]
  obtain conn where conn:
    "execute_all cv (map (\<lambda>s. Inr (params_of_sample s)) batch) (connect (Some [])) = (None, conn)"
    "pending conn = Some (map row_of_sample batch)"
    by (auto simp: connect_def)
  let ?rows = "map row_of_sample batch"
  have app: "append_batch cv (map (\<lambda>s. Inr (params_of_sample s)) batch) (Some [])
      = (None, Some ?rows)"
    using conn by (simp add: append_batch_def with_connection_def insert_and_commit_def commit_def)
  have "filter (\<lambda>r. t \<le> timestamp r) ?rows = ?rows" if "\<forall>s \<in> set batch. t \<le> s_timestamp s" for t
    using that by (simp add: filter_id_conv row_of_sample_def)
  then have "(case since of None \<Rightarrow> ?rows | Some t \<Rightarrow> filter (\<lambda>r. t \<le> timestamp r) ?rows) = ?rows"
    using since by auto
  then have sel: "select_rows since ?rows = sort_key row_key ?rows"
    by (simp add: select_rows_def)
  have "mset (sort_key row_key ?rows) = mset ?rows"
    by (rule mset_sort)
  moreover have "sorted (map row_key (sort_key row_key ?rows))"
    by (rule sorted_sort_key)
  ultimately show ?thesis
    using app sel sort_samples [of batch] by (intro exI [of _ ?rows]) (simp del: map_map)
qed

text \<open>Two samples, appended in descending order of their keys.\<close>

theorem round_trip_witness:
  "distinct (map sample_key two_samples) \<and>
   (\<exists>rows.
       append_batch no_conv (map (\<lambda>s. Inr (params_of_sample s)) two_samples) (Some [])
         = (None, Some rows)
     \<and> select_rows (Some ''2024-01-01T00:00:00+00:00'') rows
         = map row_of_sample (sort_key sample_key two_samples)
     \<and> mset (select_rows (Some ''2024-01-01T00:00:00+00:00'') rows)
         = mset (map row_of_sample two_samples)
     \<and> sorted (map row_key (select_rows (Some ''2024-01-01T00:00:00+00:00'') rows)))"
  using round_trip [of two_samples "Some ''2024-01-01T00:00:00+00:00''" no_conv]
  by (simp add: two_samples_def sample_key_def)

section \<open>The lookback of the query handler\<close>

lemmas datetime_defs = sub_hours_def ymd2ord_def ord2ymd_def days_before_year_def
  days_before_month_def DAYS_BEFORE_MONTH_def DAYS_IN_MONTH_def is_leap_def noon_def

lemma sub_hours_noon_1:
  "sub_hours noon 1 = Inr \<lparr>year = 2024, month = 1, day = 1, hour = 11, minute = 0,
                            second = 0, microsecond = 0\<rparr>"
  by (simp add: datetime_defs Let_def)

lemma sub_hours_noon_far: "sub_hours noon 20000000 = Inl OverflowError"
  by (simp add: datetime_defs Let_def)

text \<open>
  The two branches of the lookback. For \<open>hours \<le> 0\<close> the query returns the whole table,
  with no lower bound. For \<open>hours > 0\<close> such that \<^verbatim>\<open>now - timedelta(hours=hours)\<close> is a
  datetime \<open>t\<close>, it returns exactly the stored rows whose timestamp is at least the text
  of \<open>t\<close>. Both come in the order of \<open>(timestamp, location_id)\<close>, and \<^verbatim>\<open>get_data\<close>
  groups them.
\<close>

lemma lookback_filter:
  "(hours \<le> 0 \<longrightarrow>
      query_rows now hours (Some rows) = Inr (sort_key row_key rows)
    \<and> get_data now (Some hours) (Some rows) = Inr (build_series (sort_key row_key rows)))
   \<and> (0 < hours \<longrightarrow> sub_hours now hours = Inr t \<longrightarrow>
      query_rows now hours (Some rows)
        = Inr (sort_key row_key (filter (\<lambda>r. isoformat t \<le> timestamp r) rows))
    \<and> (\<exists>result. query_rows now hours (Some rows) = Inr result
          \<and> mset result = filter_mset (\<lambda>r. isoformat t \<le> timestamp r) (mset rows))
    \<and> get_data now (Some hours) (Some rows)
        = Inr (build_series (sort_key row_key (filter (\<lambda>r. isoformat t \<le> timestamp r) rows))))"
  by (simp add: query_rows_def get_data_def since_param_def select_rows_def)

text \<open>With rows thirty minutes and two hours old, a lookback of one hour returns the
  first only, a lookback of zero hours both.\<close>

lemma lookback_filter_example:
  "query_rows noon 1 (Some [half_hour_ago, two_hours_ago]) = Inr [half_hour_ago]
   \<and> query_rows noon 0 (Some [half_hour_ago, two_hours_ago]) = Inr [two_hours_ago, half_hour_ago]"
  using lookback_filter [of 1 noon "[half_hour_ago, two_hours_ago]"
      "\<lparr>year = 2024, month = 1, day = 1, hour = 11, minute = 0, second = 0, microsecond = 0\<rparr>"]
    lookback_filter [of 0 noon "[half_hour_ago, two_hours_ago]"]
  by (simp add: sub_hours_noon_1 isoformat_def digit_char_def zpad_numeral
      half_hour_ago_def two_hours_ago_def row_key_def)

text \<open>
  C4. The claim is that for every integer \<^verbatim>\<open>hours\<close> the query returns the stored samples
  with a timestamp of at least \<^verbatim>\<open>now - hours\<close> hours when \<^verbatim>\<open>hours > 0\<close>, and the whole
  history when \<^verbatim>\<open>hours <= 0\<close>. The code does so wherever it computes the lower bound
  (\<open>lookback_filter\<close>), but it does not compute it for every positive \<^verbatim>\<open>hours\<close>: a
  hundred million hours before noon of 2024-01-01 lie before the year 1, the
  subtraction raises \<^verbatim>\<open>OverflowError\<close>, which \<^verbatim>\<open>get_data\<close> does not catch, and the
  query returns no rows at all, where the claim has it return both stored rows.
\<close>

theorem lookback_overflow:
  "(0::int) < 100000000 \<and>
   query_rows noon 100000000 (Some [half_hour_ago, two_hours_ago]) = Inl OverflowError"
  by (simp add: query_rows_def since_param_def datetime_defs Let_def)

text \<open>
  C9. The claim is that \<^verbatim>\<open>get_data\<close> answers every integer \<^verbatim>\<open>hours\<close>. The handler
  catches the \<^verbatim>\<open>ValueError\<close> of a parameter that is not an integer, but not the
  \<^verbatim>\<open>OverflowError\<close> of the subtraction: for \<^verbatim>\<open>hours=20000000\<close> at noon of 2024-01-01
  the exception leaves the handler.
\<close>

theorem get_data_overflow:
  "get_data noon (Some 20000000) (Some [half_hour_ago, two_hours_ago]) = Inl OverflowError"
  by (simp add: get_data_def query_rows_def since_param_def sub_hours_noon_far)

text \<open>Where the lower bound can be computed, and for \<open>hours \<le> 0\<close>, the handler returns
  its dict.\<close>

lemma get_data_returns:
  "hours \<le> 0 \<or> (\<exists>t. sub_hours now hours = Inr t) \<Longrightarrow>
   \<exists>body. get_data now (Some hours) (Some rows) = Inr body"
  by (auto simp: get_data_def query_rows_def since_param_def)

section \<open>Activation of the scheduler\<close>

lemma execute_insert_pending:
  "execute_insert cv conn p = Inr conn' \<Longrightarrow> pending conn = Some rs \<Longrightarrow>
   \<exists>r. pending conn' = Some (rs @ [r])"
  by (auto simp: execute_insert_def split: sum.splits if_splits)

lemma execute_all_pending:
  "execute_all cv ps conn = (r, conn') \<Longrightarrow> pending conn = Some rs \<Longrightarrow>
   \<exists>rows. pending conn' = Some (rs @ rows)"
proof (induction cv ps conn arbitrary: rs rule: execute_all.induct)
  case (3 cv p ps conn)
  show ?case
  proof (cases "execute_insert cv conn p")
    case (Inl e)
    with "3.prems" show ?thesis by auto
  next
    case (Inr c1)
    from execute_insert_pending [OF Inr "3.prems"(2)] obtain x
      where "pending c1 = Some (rs @ [x])" by blast
    from "3.IH" [OF Inr _ this] "3.prems"(1) Inr show ?thesis by auto
  qed
qed auto

text \<open>The table only grows: whatever a run does, the rows it found are still there, in
  their order.\<close>

lemma append_batch_append_only:
  "\<exists>rows. snd (with_connection (insert_and_commit cv ps) (Some rs)) = Some (rs @ rows)"
proof (cases "execute_all cv ps (connect (Some rs))")
  case (Pair r conn)
  from execute_all_pending [OF Pair] obtain rows where "pending conn = Some (rs @ rows)"
    by (auto simp: connect_def)
  moreover from execute_all_committed [OF Pair] have "committed conn = Some rs"
    by (simp add: connect_def)
  ultimately show ?thesis
    using Pair
    by (cases r) (auto simp: with_connection_def insert_and_commit_def commit_def rollback_def)
qed

lemma fetch_and_store_append_only:
  "\<exists>rows. snd (fetch_and_store cv now resp (Some rs)) = Some (rs @ rows)"
proof -
  have "\<exists>rows. snd (with_connection (insert_locations cv ts data) (Some rs)) = Some (rs @ rows)"
    for ts data
  proof (cases "py_getitem data ''data''")
    case (Inl e)
    then show ?thesis
      by (simp add: insert_locations_def with_connection_def rollback_def connect_def)
  next
    case (Inr d)
    show ?thesis
    proof (cases "py_iter d")
      case (Inl e)
      with Inr show ?thesis
        by (simp add: insert_locations_def with_connection_def rollback_def connect_def)
    next
      case locs: (Inr locs)
      have "insert_locations cv ts data = insert_and_commit cv (map (location_params ts) locs)"
        using Inr locs by (simp add: insert_locations_def fun_eq_iff)
      then show ?thesis by (simp add: append_batch_append_only)
    qed
  qed
  then show ?thesis
    by (auto simp: fetch_and_store_def split: http_outcome.splits option.splits sum.splits)
qed

lemma init_db_existing:
  "db_file w = Some rows \<Longrightarrow> has_index w \<Longrightarrow> init_db w = w"
  by (simp add: init_db_def)

lemma run_fetch_and_store_scheduler:
  "running (run_fetch_and_store cv tk w) = running w"
  "jobs (run_fetch_and_store cv tk w) = jobs w"
  "has_index (run_fetch_and_store cv tk w) = has_index w"
  "scheduler_started (run_fetch_and_store cv tk w) = scheduler_started w"
  by (simp_all add: run_fetch_and_store_def split: prod.splits)

lemma run_fetch_and_store_table:
  "db_file w = Some rs \<Longrightarrow> \<exists>rows. db_file (run_fetch_and_store cv tk w) = Some (rs @ rows)"
  using fetch_and_store_append_only [of cv "clock tk" "reply tk" rs]
  by (auto simp: run_fetch_and_store_def split: prod.splits)

text \<open>
  What the code does keep of once-only activation. A second activation through the
  first-request hook, once the hook has activated the scheduler, changes nothing at all:
  two activations through the hook leave the state of one. A call of
  \<^verbatim>\<open>start_scheduler\<close> while the scheduler is running arms no second job and leaves the
  scheduler running; with the table and its index in place \<^verbatim>\<open>init_db\<close> changes nothing,
  and the stored rows are kept.
\<close>

lemma activation_idempotence:
  "(scheduler_started w \<longrightarrow> ensure_scheduler_started cv tk w = w)
   \<and> ensure_scheduler_started cv tk' (ensure_scheduler_started cv tk w)
       = ensure_scheduler_started cv tk w
   \<and> (running w \<longrightarrow>
        jobs (start_scheduler cv tk w) = jobs w \<and> running (start_scheduler cv tk w))
   \<and> (running w \<longrightarrow> db_file w = Some rs \<longrightarrow> has_index w \<longrightarrow>
        init_db w = w \<and> has_index (start_scheduler cv tk w)
        \<and> (\<exists>rows. db_file (start_scheduler cv tk w) = Some (rs @ rows)))"
proof (intro conjI impI)
  show "ensure_scheduler_started cv tk w = w" if "scheduler_started w"
    using that by (simp add: ensure_scheduler_started_def)
  show "ensure_scheduler_started cv tk' (ensure_scheduler_started cv tk w)
       = ensure_scheduler_started cv tk w"
    by (simp add: ensure_scheduler_started_def)
  show "jobs (start_scheduler cv tk w) = jobs w" if "running w"
    using that by (simp add: start_scheduler_def Let_def run_fetch_and_store_scheduler init_db_def)
  show "running (start_scheduler cv tk w)" if "running w"
    using that by (simp add: start_scheduler_def Let_def run_fetch_and_store_scheduler init_db_def)
  show "init_db w = w" if "db_file w = Some rs" "has_index w"
    using that by (rule init_db_existing)
  show "has_index (start_scheduler cv tk w)"
    by (simp add: start_scheduler_def Let_def run_fetch_and_store_scheduler init_db_def)
  show "\<exists>rows. db_file (start_scheduler cv tk w) = Some (rs @ rows)"
    if "running w" "db_file w = Some rs" "has_index w"
  proof -
    from run_fetch_and_store_table [of "init_db w" rs cv tk] that
    obtain rows where "db_file (run_fetch_and_store cv tk (init_db w)) = Some (rs @ rows)"
      by (auto simp: init_db_existing)
    then show ?thesis
      using that by (auto simp: start_scheduler_def Let_def run_fetch_and_store_scheduler init_db_existing)
  qed
qed

lemmas run_defs = fetch_and_store_def with_connection_def insert_locations_def
  insert_and_commit_def commit_def eval_defs

lemma started_world:
  "start_scheduler no_conv first_tick (fresh_world None) =
     \<lparr>db_file = Some [\<lparr>timestamp = ''2024-01-01T12:00:00+00:00'', location_id = SqlInt 1,
                        location_name = ''A'', capacity = SqlInt 10\<rparr>],
      has_index = True, running = True, jobs = 1, scheduler_started = False,
      requests_sent = 1, printed = []\<rparr>"
  by (simp add: start_scheduler_def init_db_def run_fetch_and_store_def fresh_world_def
      first_tick_def Let_def run_defs)

lemma isoformat_five_past: "isoformat (noon\<lparr>minute := 5\<rparr>) = ''2024-01-01T12:05:00+00:00''"
  by (simp add: isoformat_def noon_def digit_char_def zpad_numeral)

lemma fresh_world_not_started: "\<not> scheduler_started (fresh_world d)"
  by (simp add: fresh_world_def)

lemma lazily_started_world:
  "ensure_scheduler_started no_conv first_tick (fresh_world None) =
     \<lparr>db_file = Some [\<lparr>timestamp = ''2024-01-01T12:00:00+00:00'', location_id = SqlInt 1,
                        location_name = ''A'', capacity = SqlInt 10\<rparr>],
      has_index = True, running = True, jobs = 1, scheduler_started = True,
      requests_sent = 1, printed = []\<rparr>"
  by (simp add: ensure_scheduler_started_def fresh_world_not_started started_world)

text \<open>Two requests in a fresh process: one fetch, one job, one stored row.\<close>

lemma activation_idempotence_example:
  "ensure_scheduler_started no_conv second_tick
     (ensure_scheduler_started no_conv first_tick (fresh_world None))
   = \<lparr>db_file = Some [\<lparr>timestamp = ''2024-01-01T12:00:00+00:00'', location_id = SqlInt 1,
                        location_name = ''A'', capacity = SqlInt 10\<rparr>],
      has_index = True, running = True, jobs = 1, scheduler_started = True,
      requests_sent = 1, printed = []\<rparr>"
  using activation_idempotence [where w = "fresh_world None" and cv = no_conv
      and tk = first_tick and tk' = second_tick]
  by (simp add: lazily_started_world)

text \<open>
  C8. The claim is that a second activation, through the eager start or through the
  first-request hook, is a no-op while the scheduler is running: no second timer, the
  schema unchanged, no additional fetch or store. The flag, the lock and the guard on
  \<^verbatim>\<open>scheduler.running\<close> aim at that, and hook after hook achieves it
  (\<open>activation_idempotence\<close>). But \<^verbatim>\<open>start_scheduler\<close> guards the job only and never sets
  the flag of the hook: in a process started eagerly, as \<^verbatim>\<open>__main__\<close> does, the first
  request activates again while the scheduler is running, sends a second request and
  stores a second row.
\<close>

theorem second_activation_fetches_again:
  "running (start_scheduler no_conv first_tick (fresh_world None))
   \<and> ensure_scheduler_started no_conv second_tick
       (start_scheduler no_conv first_tick (fresh_world None))
     = \<lparr>db_file = Some [\<lparr>timestamp = ''2024-01-01T12:00:00+00:00'', location_id = SqlInt 1,
                          location_name = ''A'', capacity = SqlInt 10\<rparr>,
                        \<lparr>timestamp = ''2024-01-01T12:05:00+00:00'', location_id = SqlInt 1,
                          location_name = ''A'', capacity = SqlInt 12\<rparr>],
        has_index = True, running = True, jobs = 1, scheduler_started = True,
        requests_sent = 2, printed = []\<rparr>"
  unfolding started_world
  by (simp add: ensure_scheduler_started_def start_scheduler_def init_db_def
      run_fetch_and_store_def second_tick_def Let_def fetch_and_store_def with_connection_def
      insert_locations_def insert_and_commit_def commit_def capacity_response_def
      location_entry_def location_params_def execute_insert_def stored_row_def row_key_def
      connect_def no_conv_def isoformat_five_past)

section \<open>The text order of timestamps\<close>

lemma digit_cases:
  "(k::nat) < 10 \<Longrightarrow> k = 0 \<or> k = 1 \<or> k = 2 \<or> k = 3 \<or> k = 4 \<or> k = 5 \<or> k = 6 \<or> k = 7 \<or> k = 8 \<or> k = 9"
  by arith

lemma of_char_digit: "of_char (digit_char d) = (48 + d mod 10 :: nat)"
proof -
  have "d mod 10 < 10" by simp
  from digit_cases [OF this] show ?thesis
    by (elim disjE) (simp_all add: digit_char_def)
qed

lemma append_less_same_length:
  fixes u v :: "'a::linorder list"
  shows "length u = length v \<Longrightarrow> (u @ xs < v @ ys \<longleftrightarrow> u < v \<or> (u = v \<and> xs < ys))"
  by (induction u v rule: list_induct2) auto

lemma append_le_same_length:
  fixes u v :: "'a::linorder list"
  shows "length u = length v \<Longrightarrow> (u @ xs \<le> v @ ys \<longleftrightarrow> u < v \<or> (u = v \<and> xs \<le> ys))"
  by (induction u v rule: list_induct2) auto

lemma digit_char_less: "digit_char a < digit_char b \<longleftrightarrow> a mod 10 < b mod 10"
  by (simp add: less_char_def of_char_digit)

lemma digit_char_eq: "digit_char a = digit_char b \<longleftrightarrow> a mod 10 = b mod 10"
proof
  assume "digit_char a = digit_char b"
  then have "(of_char (digit_char a) :: nat) = of_char (digit_char b)" by simp
  then show "a mod 10 = b mod 10" by (simp add: of_char_digit)
next
  assume "a mod 10 = b mod 10"
  then show "digit_char a = digit_char b" by (simp add: digit_char_def)
qed

lemma length_zpad: "length (zpad w n) = w"
  by (induction w arbitrary: n) simp_all

lemma less_div_mod_10:
  "(n::nat) < m \<longleftrightarrow> n div 10 < m div 10 \<or> (n div 10 = m div 10 \<and> n mod 10 < m mod 10)"
proof -
  define a b c d where "a = n div 10" and "b = n mod 10" and "c = m div 10" and "d = m mod 10"
  have "n = 10 * a + b" "m = 10 * c + d" "b < 10" "d < 10"
    by (simp_all add: a_def b_def c_def d_def)
  then have "n < m \<longleftrightarrow> a < c \<or> (a = c \<and> b < d)" by arith
  then show ?thesis by (simp only: a_def b_def c_def d_def)
qed

lemma eq_div_mod_10:
  "(n::nat) = m \<longleftrightarrow> n div 10 = m div 10 \<and> n mod 10 = m mod 10"
  by (metis div_mult_mod_eq)

lemma zpad_less: "n < 10 ^ w \<Longrightarrow> m < 10 ^ w \<Longrightarrow> (zpad w n < zpad w m \<longleftrightarrow> n < m)"
  and zpad_eq: "n < 10 ^ w \<Longrightarrow> m < 10 ^ w \<Longrightarrow> (zpad w n = zpad w m \<longleftrightarrow> n = m)"
proof (induction w arbitrary: n m)
  case 0
  { case 1 then show ?case by simp }
  { case 2 then show ?case by simp }
next
  case (Suc w)
  { case 1
    then have b: "n div 10 < 10 ^ w" "m div 10 < 10 ^ w"
      by (simp_all add: less_mult_imp_div_less mult.commute)
    show ?case
      using Suc.IH(1) [OF b] Suc.IH(2) [OF b] less_div_mod_10 [of n m]
      by (simp add: append_less_same_length length_zpad digit_char_less) }
  { case 2
    then have b: "n div 10 < 10 ^ w" "m div 10 < 10 ^ w"
      by (simp_all add: less_mult_imp_div_less mult.commute)
    show ?case
      using Suc.IH(2) [OF b] eq_div_mod_10 [of n m] by (simp add: digit_char_eq) }
qed

lemma zpad_append_le:
  "n < 10 ^ w \<Longrightarrow> m < 10 ^ w \<Longrightarrow>
   (zpad w n @ xs \<le> zpad w m @ ys \<longleftrightarrow> n < m \<or> (n = m \<and> xs \<le> ys))"
  by (simp add: append_le_same_length length_zpad zpad_less zpad_eq)

lemma fraction_le:
  assumes "a < 1000000" "b < 1000000"
  shows "(if a \<noteq> 0 then ''.'' @ zpad 6 a else []) @ ''+00:00''
       \<le> (if b \<noteq> 0 then ''.'' @ zpad 6 b else []) @ ''+00:00'' \<longleftrightarrow> a \<le> b"
  using assms zpad_append_le [of a 6 b "''+00:00''" "''+00:00''"] by auto

lemma field_le:
  assumes "n < 10 ^ w" "m < 10 ^ w" and rest: "xs \<le> ys \<longleftrightarrow> x \<le> y"
  shows "zpad w n @ c # xs \<le> zpad w m @ c # ys \<longleftrightarrow> (n, x) \<le> (m, y)"
  using assms(1,2) rest by (auto simp: zpad_append_le)

text \<open>\<^verbatim>\<open>isoformat\<close> is monotone: the texts of two datetimes compare, byte by byte, as
  the datetimes do. A text without microseconds ends its seconds with \<open>+\<close>, which
  is below the \<open>.\<close> of a text with microseconds.\<close>

lemma isoformat_le_iff:
  assumes a: "fits_isoformat a" and b: "fits_isoformat b"
  shows "isoformat a \<le> isoformat b \<longleftrightarrow> dt_key a \<le> dt_key b"
proof -
  define frac where "frac d =
    (if microsecond d \<noteq> 0 then ''.'' @ zpad 6 (microsecond d) else []) @ ''+00:00''" for d :: pydatetime
  define t5 where "t5 d = zpad 2 (second d) @ frac d" for d :: pydatetime
  define t4 where "t4 d = zpad 2 (minute d) @ CHR '':'' # t5 d" for d :: pydatetime
  define t3 where "t3 d = zpad 2 (hour d) @ CHR '':'' # t4 d" for d :: pydatetime
  define t2 where "t2 d = zpad 2 (day d) @ CHR ''T'' # t3 d" for d :: pydatetime
  define t1 where "t1 d = zpad 2 (month d) @ CHR ''-'' # t2 d" for d :: pydatetime
  have iso: "isoformat d = zpad 4 (year d) @ CHR ''-'' # t1 d" for d
    by (simp add: isoformat_def t1_def t2_def t3_def t4_def t5_def frac_def)
  from a b have r:
    "year a < 10 ^ 4" "year b < 10 ^ 4" "month a < 10 ^ 2" "month b < 10 ^ 2"
    "day a < 10 ^ 2" "day b < 10 ^ 2" "hour a < 10 ^ 2" "hour b < 10 ^ 2"
    "minute a < 10 ^ 2" "minute b < 10 ^ 2" "second a < 10 ^ 2" "second b < 10 ^ 2"
    "microsecond a < 1000000" "microsecond b < 1000000"
    by (simp_all add: fits_isoformat_def)
  have e6: "frac a \<le> frac b \<longleftrightarrow> microsecond a \<le> microsecond b"
    unfolding frac_def by (rule fraction_le [OF r(13,14)])
  have e5: "t5 a \<le> t5 b \<longleftrightarrow> (second a, microsecond a) \<le> (second b, microsecond b)"
    unfolding t5_def using r(11,12) e6 by (auto simp: zpad_append_le)
  have e4: "t4 a \<le> t4 b
      \<longleftrightarrow> (minute a, second a, microsecond a) \<le> (minute b, second b, microsecond b)"
    unfolding t4_def by (rule field_le [OF r(9,10) e5])
  have e3: "t3 a \<le> t3 b
      \<longleftrightarrow> (hour a, minute a, second a, microsecond a) \<le> (hour b, minute b, second b, microsecond b)"
    unfolding t3_def by (rule field_le [OF r(7,8) e4])
  have e2: "t2 a \<le> t2 b
      \<longleftrightarrow> (day a, hour a, minute a, second a, microsecond a)
        \<le> (day b, hour b, minute b, second b, microsecond b)"
    unfolding t2_def by (rule field_le [OF r(5,6) e3])
  have e1: "t1 a \<le> t1 b
      \<longleftrightarrow> (month a, day a, hour a, minute a, second a, microsecond a)
        \<le> (month b, day b, hour b, minute b, second b, microsecond b)"
    unfolding t1_def by (rule field_le [OF r(3,4) e2])
  show ?thesis
    unfolding iso dt_key_def by (rule field_le [OF r(1,2) e1])
qed

text \<open>
  So the text comparison of the query is the comparison of the instants: of the rows
  whose timestamp is the text of a datetime \<open>d\<close>, a positive lookback returns those
  with \<open>d\<close> not before \<^verbatim>\<open>now - timedelta(hours=hours)\<close>.
\<close>

lemma lookback_chronological:
  assumes "0 < hours" "sub_hours now hours = Inr t" "fits_isoformat t"
    and "fits_isoformat d" "timestamp r = isoformat d"
  shows "\<exists>result. query_rows now hours (Some rows) = Inr result
     \<and> (r \<in> set result \<longleftrightarrow> r \<in> set rows \<and> dt_key t \<le> dt_key d)"
  using assms isoformat_le_iff [of t d]
  by (simp add: query_rows_def since_param_def select_rows_def)

end
